theory Spec2Isabelle
  imports Complex_Main
begin

section \<open>The one-sample z-test notebook\<close>

text \<open>
  The notebook \<^verbatim>\<open>index.ipynb\<close> has three computing cells:
  \<^verbatim>\<open>
  x_bar = 103 # sample mean
  n = 40 # number of students
  sigma = 16 # sd of population
  mu = 100 # Population mean
  z = (x_bar - mu)/(sigma/sqrt(n))

  stats.norm.cdf(z)

  pval = 1 - stats.norm.cdf(z)
  \<close>
  Each cell is embedded as a function of the variables it reads. Python floats are
  modelled as the reals: rounding, overflow, infinities and NaN are outside the model,
  and every "approximately" of the specification is stated as an explicit bound on
  the exact real value. The exceptions Python raises are values of a sum type.
\<close>

subsection \<open>Python's arithmetic, with its exceptions\<close>

datatype error = ValueError | ZeroDivisionError

text \<open>\<^verbatim>\<open>math.sqrt\<close> raises ValueError (math domain error) on a negative argument.\<close>

definition py_sqrt :: "real \<Rightarrow> error + real" where
  "py_sqrt x = (if x < 0 then Inl ValueError else Inr (sqrt x))"

text \<open>The operator \<^verbatim>\<open>/\<close> raises ZeroDivisionError when the divisor is zero.\<close>

definition truediv :: "real \<Rightarrow> real \<Rightarrow> error + real" where
  "truediv a b = (if b = 0 then Inl ZeroDivisionError else Inr (a / b))"

subsection \<open>The cells\<close>

text \<open>
  The cell \<^verbatim>\<open>z = (x_bar - mu)/(sigma/sqrt(n))\<close>, as a function of its four variables.
  Python evaluates \<^verbatim>\<open>sqrt(n)\<close>, then \<^verbatim>\<open>sigma/sqrt(n)\<close>, then the outer division; the
  first exception ends the evaluation. The sample size is an integer, the other
  three are reals.
\<close>

definition z_statistic :: "real \<Rightarrow> real \<Rightarrow> real \<Rightarrow> int \<Rightarrow> error + real" where
  "z_statistic x_bar mu sigma n =
     (case py_sqrt (real_of_int n) of
        Inl e \<Rightarrow> Inl e
      | Inr r \<Rightarrow>
          (case truediv sigma r of
             Inl e \<Rightarrow> Inl e
           | Inr se \<Rightarrow> truediv (x_bar - mu) se))"

text \<open>
  The cell \<^verbatim>\<open>pval = 1 - stats.norm.cdf(z)\<close>. The function \<^verbatim>\<open>stats.norm.cdf\<close> is SciPy's
  and not part of the notebook, so it is a parameter of the model. The cell applies
  nothing to the difference: no clamp, no check.
\<close>

definition pval :: "(real \<Rightarrow> real) \<Rightarrow> real \<Rightarrow> real" where
  "pval cdf zv = 1 - cdf zv"

subsection \<open>The standard normal distribution function\<close>

text \<open>
  Modelled from the spec: \<^verbatim>\<open>stats.norm.cdf\<close> belongs to SciPy and is missing from the
  notebook. The specification names it the standard normal cumulative distribution
  function \<open>\<Phi>\<close>, that is \<open>\<Phi> x = 1 / 2 + (1 / sqrt (2 * pi)) * A x\<close> where \<open>A x\<close> is the area
  under \<open>exp (- t\<^sup>2 / 2)\<close> between 0 and \<open>x\<close>. The coefficients below are those of the
  Maclaurin series of that area, \<open>A x = x * (\<Sum>k. (- 1 / 2) ^ k / (k! * (2 * k + 1)) * (x\<^sup>2) ^ k)\<close>.
\<close>

definition gauss_coeff :: "nat \<Rightarrow> real" where
  "gauss_coeff k = (- 1 / 2) ^ k / (fact k * real (2 * k + 1))"

text \<open>
  Modelled from the spec: the area under \<open>exp (- t\<^sup>2 / 2)\<close> between 0 and \<open>x\<close>, missing
  with \<^verbatim>\<open>stats.norm.cdf\<close>. Lemma \<open>gauss_area_deriv\<close> below shows that its derivative is
  \<open>exp (- x\<^sup>2 / 2)\<close>; its value at 0 is 0.
\<close>

definition gauss_area :: "real \<Rightarrow> real" where
  "gauss_area x = x * (\<Sum>k. gauss_coeff k * (x * x) ^ k)"

text \<open>
  Modelled from the spec: the standard normal cumulative distribution function \<open>\<Phi>\<close>, in
  place of the missing \<^verbatim>\<open>stats.norm.cdf\<close>. Lemma \<open>norm_cdf_deriv\<close> below shows that its
  derivative is the standard normal density, and \<open>norm_cdf_zero\<close> that it is 1/2 at 0.
  This is the exact function; the rounding of SciPy's floating-point evaluation is
  outside the model.
\<close>

definition norm_cdf :: "real \<Rightarrow> real" where
  "norm_cdf x = 1 / 2 + gauss_area x / sqrt (2 * pi)"

text \<open>
  Modelled from the spec: the notebook computes the upper tail only and has no
  two-sided p-value. The specification gives it as \<open>2 * (1 - \<Phi> \<bar>z\<bar>)\<close>, with the result
  clamped to [0, 1]; the distribution function is a parameter, as in \<open>pval\<close>.
\<close>

definition two_sided :: "(real \<Rightarrow> real) \<Rightarrow> real \<Rightarrow> real" where
  "two_sided cdf zv = max 0 (min 1 (2 * (1 - cdf \<bar>zv\<bar>)))"

subsection \<open>Areas under powers of the cosine\<close>

text \<open>
  Two functions used only in the proof that \<open>norm_cdf\<close> stays between 0 and 1. The
  first is the area under \<open>cos ^ m\<close> between 0 and \<open>t\<close>, given by the reduction formula;
  lemma \<open>cos_int_deriv\<close> below shows that its derivative is \<open>cos t ^ m\<close>. The second is
  that area up to \<open>pi / 2\<close>.
\<close>

fun cos_int :: "nat \<Rightarrow> real \<Rightarrow> real" where
  "cos_int 0 t = t"
| "cos_int (Suc 0) t = sin t"
| "cos_int (Suc (Suc m)) t =
     cos t ^ Suc m * sin t / real (m + 2) + real (m + 1) / real (m + 2) * cos_int m t"

definition wallis :: "nat \<Rightarrow> real" where
  "wallis m = cos_int m (pi / 2)"

section \<open>The z-statistic\<close>

lemma z_statistic_valid:
  "0 < sigma \<Longrightarrow> 0 < n \<Longrightarrow>
     z_statistic x_bar mu sigma n = Inr ((x_bar - mu) / (sigma / sqrt (real_of_int n)))"
  by (simp add: z_statistic_def py_sqrt_def truediv_def)

lemma z_statistic_cases:
  "z_statistic x_bar mu sigma n =
     (if n < 0 then Inl ValueError
      else if n = 0 \<or> sigma = 0 then Inl ZeroDivisionError
      else Inr ((x_bar - mu) / (sigma / sqrt (real_of_int n))))"
  by (simp add: z_statistic_def py_sqrt_def truediv_def)

lemma sqrt40_lower: "(63245553203367586 / 10 ^ 16 :: real) < sqrt 40"
  by (rule real_less_rsqrt) (simp add: power2_eq_square)

lemma sqrt40_upper: "sqrt 40 < (63245553203367587 / 10 ^ 16 :: real)"
  by (rule real_less_lsqrt) (simp_all add: power2_eq_square)

lemma z_example_value:
  "\<bar>3 / (16 / sqrt 40) - 11858541225631423 / 10 ^ 16\<bar> < (1 / 10 ^ 16 :: real)"
  using sqrt40_lower sqrt40_upper by (simp add: abs_less_iff field_simps)

text \<open>
  C1. With a positive standard deviation and a positive sample size the z cell raises
  nothing and returns \<open>(x_bar - mu) / (sigma / sqrt n)\<close>. On the notebook's own
  numbers (103, 100, 16, 40) the exact value lies within \<open>1 / 10 ^ 16\<close> of the printed
  1.1858541225631423.
\<close>

theorem z_statistic_formula:
  "(0 < sigma \<and> 0 < n \<longrightarrow>
      z_statistic x_bar mu sigma n = Inr ((x_bar - mu) / (sigma / sqrt (real_of_int n))))
   \<and> z_statistic 103 100 16 40 = Inr (3 / (16 / sqrt 40))
   \<and> \<bar>3 / (16 / sqrt 40) - 11858541225631423 / 10 ^ 16\<bar> < (1 / 10 ^ 16 :: real)"
  using z_example_value by (simp add: z_statistic_valid)

theorem z_statistic_formula_witness:
  "(0::real) < 2 \<and> (0::int) < 4 \<and> z_statistic 7 5 2 4 = Inr 2"
  using z_statistic_formula [of 2 4 7 5] by simp

text \<open>
  C5, as the specification has it: a non-positive standard deviation or sample size
  is refused with InvalidParameter. The cell validates nothing. A negative standard
  deviation with a positive sample size is divided by like any other number, and the
  result is the formula's value with the sign turned.
\<close>

theorem z_statistic_negative_sigma_returns:
  "z_statistic 103 100 (- 16) 40 = Inr (3 / (- 16 / sqrt 40))"
  by (simp add: z_statistic_def py_sqrt_def truediv_def)

text \<open>
  C5, amended. The cell fails exactly when the sample size is not positive or the
  standard deviation is zero: with ValueError from \<^verbatim>\<open>sqrt\<close> for a negative sample size,
  with ZeroDivisionError for a sample size of zero (whatever the standard deviation)
  and for a standard deviation of zero. In every other case, a negative standard
  deviation included, it returns the value of the formula.
\<close>

theorem z_statistic_failures:
  "(n < 0 \<longrightarrow> z_statistic x_bar mu sigma n = Inl ValueError)
   \<and> (n = 0 \<longrightarrow> z_statistic x_bar mu sigma n = Inl ZeroDivisionError)
   \<and> (0 < n \<and> sigma = 0 \<longrightarrow> z_statistic x_bar mu sigma n = Inl ZeroDivisionError)
   \<and> (0 < n \<and> sigma \<noteq> 0 \<longrightarrow>
        z_statistic x_bar mu sigma n = Inr ((x_bar - mu) / (sigma / sqrt (real_of_int n))))"
  by (simp add: z_statistic_cases)

theorem z_statistic_failures_witness:
  "(- 1 :: int) < 0 \<and> z_statistic 103 100 16 (- 1) = Inl ValueError
   \<and> z_statistic 103 100 16 0 = Inl ZeroDivisionError
   \<and> (0::int) < 40 \<and> z_statistic 103 100 0 40 = Inl ZeroDivisionError
   \<and> (0::int) < 4 \<and> (- 2 :: real) \<noteq> 0 \<and> z_statistic 7 5 (- 2) 4 = Inr (- 2)"
  using z_statistic_failures [of "- 1" 103 100 16]
        z_statistic_failures [of 0 103 100 16]
        z_statistic_failures [of 40 103 100 0]
        z_statistic_failures [of 4 7 5 "- 2"]
  by simp

text \<open>
  C9, as the specification has it: the result is positive when the sample mean
  exceeds the population mean and negative otherwise. When the two means are equal
  the result is zero, which is not negative.
\<close>

theorem z_statistic_equal_means_zero:
  "z_statistic 100 100 16 40 = Inr 0 \<and> \<not> ((0::real) < 0)"
  by (simp add: z_statistic_def py_sqrt_def truediv_def)

text \<open>
  C9, amended. For a positive standard deviation and sample size the result \<open>v\<close> is
  positive exactly when the sample mean is above the population mean, negative
  exactly when it is below, and zero exactly when they are equal. Its magnitude is
  \<open>\<bar>x_bar - mu\<bar> * sqrt n / sigma\<close>; so between two valid inputs, a mean difference
  at least as large, a sample size at least as large and a standard deviation at
  most as large give a magnitude at least as large.
\<close>

theorem z_statistic_sign_magnitude:
  assumes "0 < sigma" and "0 < n"
  shows "\<exists>v. z_statistic x_bar mu sigma n = Inr v
           \<and> (0 < v \<longleftrightarrow> mu < x_bar) \<and> (v < 0 \<longleftrightarrow> x_bar < mu) \<and> (v = 0 \<longleftrightarrow> x_bar = mu)
           \<and> \<bar>v\<bar> = \<bar>x_bar - mu\<bar> * sqrt (real_of_int n) / sigma
           \<and> (\<forall>x_bar' mu' sigma' n' v'.
                 0 < sigma' \<and> sigma' \<le> sigma \<and> n \<le> n' \<and> \<bar>x_bar - mu\<bar> \<le> \<bar>x_bar' - mu'\<bar>
                 \<and> z_statistic x_bar' mu' sigma' n' = Inr v' \<longrightarrow> \<bar>v\<bar> \<le> \<bar>v'\<bar>)"
proof -
  let ?v = "(x_bar - mu) / (sigma / sqrt (real_of_int n))"
  have sq: "0 < sqrt (real_of_int n)"
    using assms by simp
  have den: "0 < sigma / sqrt (real_of_int n)"
    using assms sq by simp
  have eq: "z_statistic x_bar mu sigma n = Inr ?v"
    using assms by (rule z_statistic_valid)
  have sgn: "(0 < a / d \<longleftrightarrow> 0 < a) \<and> (a / d < 0 \<longleftrightarrow> a < 0) \<and> (a / d = 0 \<longleftrightarrow> a = 0)"
    if "0 < d" for a d :: real
    using that by (simp add: zero_less_divide_iff divide_less_0_iff)
  have pos: "0 < ?v \<longleftrightarrow> mu < x_bar"
    using sgn [OF den, of "x_bar - mu"] by simp
  have neg: "?v < 0 \<longleftrightarrow> x_bar < mu"
    using sgn [OF den, of "x_bar - mu"] by simp
  have zero: "?v = 0 \<longleftrightarrow> x_bar = mu"
    using sgn [OF den, of "x_bar - mu"] by simp
  have mag: "\<bar>?v\<bar> = \<bar>x_bar - mu\<bar> * sqrt (real_of_int n) / sigma"
    using assms sq by (simp add: abs_mult)
  have grows: "\<bar>?v\<bar> \<le> \<bar>v'\<bar>"
    if h: "0 < sigma' \<and> sigma' \<le> sigma \<and> n \<le> n' \<and> \<bar>x_bar - mu\<bar> \<le> \<bar>x_bar' - mu'\<bar>
           \<and> z_statistic x_bar' mu' sigma' n' = Inr v'"
    for x_bar' mu' sigma' n' v'
  proof -
    have n': "0 < n'"
      using h assms by simp
    have s': "0 < sigma'"
      using h by simp
    have "Inr v' = z_statistic x_bar' mu' sigma' n'"
      using h by simp
    also have "\<dots> = Inr ((x_bar' - mu') / (sigma' / sqrt (real_of_int n')))"
      using s' n' by (rule z_statistic_valid)
    finally have v': "v' = (x_bar' - mu') / (sigma' / sqrt (real_of_int n'))"
      by simp
    have mag': "\<bar>v'\<bar> = \<bar>x_bar' - mu'\<bar> * sqrt (real_of_int n') / sigma'"
      using h n' by (simp add: v' abs_mult)
    have s: "sqrt (real_of_int n) \<le> sqrt (real_of_int n')"
      using h by simp
    have "\<bar>x_bar - mu\<bar> * sqrt (real_of_int n) \<le> \<bar>x_bar' - mu'\<bar> * sqrt (real_of_int n')"
      using h s assms by (intro mult_mono) simp_all
    moreover have "0 \<le> \<bar>x_bar - mu\<bar> * sqrt (real_of_int n)"
      using assms by simp
    ultimately have "\<bar>x_bar - mu\<bar> * sqrt (real_of_int n) / sigma
                       \<le> \<bar>x_bar' - mu'\<bar> * sqrt (real_of_int n') / sigma'"
      using h assms by (intro frac_le) simp_all
    then show ?thesis
      by (simp only: mag mag')
  qed
  show ?thesis
    using eq pos neg zero mag grows by blast
qed

theorem z_statistic_sign_magnitude_witness:
  "(0::real) < 2 \<and> (0::int) < 4 \<and> z_statistic 7 5 2 4 = Inr 2 \<and> (5::real) < 7
   \<and> (0::real) < 1 \<and> (1::real) \<le> 2 \<and> (4::int) \<le> 9 \<and> \<bar>7 - 5 :: real\<bar> \<le> \<bar>9 - 5\<bar>
   \<and> z_statistic 9 5 1 9 = Inr 12 \<and> \<bar>2 :: real\<bar> \<le> \<bar>12\<bar>"
proof -
  have first: "z_statistic 7 5 2 4 = Inr 2"
    by (simp add: z_statistic_def py_sqrt_def truediv_def)
  have "sqrt 9 = (3::real)"
    by (rule real_sqrt_unique) simp_all
  then have second: "z_statistic 9 5 1 9 = Inr 12"
    by (simp add: z_statistic_def py_sqrt_def truediv_def)
  obtain v where v: "z_statistic 7 5 2 4 = Inr v" and pos: "0 < v \<longleftrightarrow> (5::real) < 7"
    and grows: "\<forall>x_bar' mu' sigma' n' v'.
                 0 < sigma' \<and> sigma' \<le> 2 \<and> 4 \<le> n' \<and> \<bar>7 - 5 :: real\<bar> \<le> \<bar>x_bar' - mu'\<bar>
                 \<and> z_statistic x_bar' mu' sigma' n' = Inr v' \<longrightarrow> \<bar>v\<bar> \<le> \<bar>v'\<bar>"
    using z_statistic_sign_magnitude [of 2 4 7 5] by auto
  have v2: "v = 2"
    using v first by simp
  have "\<bar>v\<bar> \<le> \<bar>12 :: real\<bar>"
    using grows second by (elim allE [of _ 9] allE [of _ 5] allE [of _ 1] allE [of _ 12]) simp
  then show ?thesis
    using first second pos v2 by simp
qed

section \<open>Properties of the standard normal distribution function\<close>

lemma gauss_coeff_summable: "summable (\<lambda>k. gauss_coeff k * y ^ k)"
proof (rule summable_comparison_test')
  show "summable (\<lambda>k. inverse (fact k) * (\<bar>y\<bar> / 2) ^ k)"
    by (rule summable_exp)
next
  fix k :: nat
  have "norm (gauss_coeff k * y ^ k) = (\<bar>y\<bar> / 2) ^ k / (fact k * real (2 * k + 1))"
    by (simp add: gauss_coeff_def abs_mult power_abs power_divide)
  also have "\<dots> \<le> (\<bar>y\<bar> / 2) ^ k / (fact k * 1)"
    by (intro divide_left_mono mult_left_mono) simp_all
  finally show "norm (gauss_coeff k * y ^ k) \<le> inverse (fact k) * (\<bar>y\<bar> / 2) ^ k"
    by (simp add: field_simps)
qed

lemma gauss_series_deriv:
  "((\<lambda>y. \<Sum>k. gauss_coeff k * y ^ k) has_field_derivative (\<Sum>k. diffs gauss_coeff k * y ^ k)) (at y)"
  by (rule termdiffs_strong_converges_everywhere) (rule gauss_coeff_summable)

lemma gauss_series_ode:
  "(\<Sum>k. gauss_coeff k * y ^ k) + 2 * y * (\<Sum>k. diffs gauss_coeff k * y ^ k) = exp (- y / 2)"
proof -
  let ?f = "\<lambda>k. 2 * real k * gauss_coeff k * y ^ k"
  have s0: "(\<lambda>k. gauss_coeff k * y ^ k) sums (\<Sum>k. gauss_coeff k * y ^ k)"
    using gauss_coeff_summable by (rule summable_sums)
  have "summable (\<lambda>k. diffs gauss_coeff k * y ^ k)"
    by (rule termdiff_converges_all) (rule gauss_coeff_summable)
  then have "(\<lambda>k. diffs gauss_coeff k * y ^ k) sums (\<Sum>k. diffs gauss_coeff k * y ^ k)"
    by (rule summable_sums)
  then have "(\<lambda>k. (2 * y) * (diffs gauss_coeff k * y ^ k)) sums
               ((2 * y) * (\<Sum>k. diffs gauss_coeff k * y ^ k))"
    by (rule sums_mult)
  then have "(\<lambda>k. ?f (Suc k)) sums (2 * y * (\<Sum>k. diffs gauss_coeff k * y ^ k))"
    by (simp add: diffs_def mult_ac)
  then have "?f sums (2 * y * (\<Sum>k. diffs gauss_coeff k * y ^ k) + ?f 0)"
    by (rule sums_Suc)
  then have s1: "?f sums (2 * y * (\<Sum>k. diffs gauss_coeff k * y ^ k))"
    by simp
  have "(\<lambda>k. gauss_coeff k * y ^ k + ?f k) sums
          ((\<Sum>k. gauss_coeff k * y ^ k) + 2 * y * (\<Sum>k. diffs gauss_coeff k * y ^ k))"
    using s0 s1 by (rule sums_add)
  moreover have "gauss_coeff k * y ^ k + ?f k = (- y / 2) ^ k /\<^sub>R fact k" for k
  proof -
    have "gauss_coeff k * y ^ k + ?f k = real (2 * k + 1) * gauss_coeff k * y ^ k"
      by (simp add: algebra_simps)
    also have "real (2 * k + 1) * gauss_coeff k = (- 1 / 2) ^ k / fact k"
      by (simp add: gauss_coeff_def)
    also have "(- 1 / 2) ^ k / fact k * y ^ k = ((- 1 / 2) ^ k * y ^ k) / fact k"
      by simp
    also have "(- 1 / 2) ^ k * y ^ k = (- y / 2) ^ k"
      unfolding power_mult_distrib [symmetric] by simp
    also have "(- y / 2) ^ k / fact k = (- y / 2) ^ k /\<^sub>R fact k"
      by (simp add: field_simps)
    finally show ?thesis .
  qed
  ultimately have "(\<lambda>k. (- y / 2) ^ k /\<^sub>R fact k) sums
          ((\<Sum>k. gauss_coeff k * y ^ k) + 2 * y * (\<Sum>k. diffs gauss_coeff k * y ^ k))"
    by simp
  then show ?thesis
    using exp_converges [of "- y / 2"] by (rule sums_unique2)
qed

lemma gauss_area_deriv: "(gauss_area has_field_derivative exp (- (x * x) / 2)) (at x)"
proof -
  let ?H = "\<lambda>y. \<Sum>k. gauss_coeff k * y ^ k"
  let ?H' = "\<lambda>y. \<Sum>k. diffs gauss_coeff k * y ^ k"
  have "((\<lambda>x. x * ?H (x * x)) has_field_derivative
          (1 * ?H (x * x) + (?H' (x * x) * (1 * x + 1 * x)) * x)) (at x)"
    by (rule DERIV_mult DERIV_ident DERIV_chain2 [where g = "\<lambda>x. x * x"] gauss_series_deriv)+
  moreover have "1 * ?H (x * x) + (?H' (x * x) * (1 * x + 1 * x)) * x = exp (- (x * x) / 2)"
    using gauss_series_ode [of "x * x"] by (simp add: algebra_simps)
  ultimately show ?thesis
    unfolding gauss_area_def [abs_def] by simp
qed

lemma norm_cdf_deriv:
  "(norm_cdf has_field_derivative exp (- (x * x) / 2) / sqrt (2 * pi)) (at x)"
proof -
  have "((\<lambda>x. 1 / 2 + gauss_area x / sqrt (2 * pi)) has_field_derivative
          (0 + exp (- (x * x) / 2) / sqrt (2 * pi))) (at x)"
    by (intro DERIV_add DERIV_const DERIV_cdivide gauss_area_deriv)
  then show ?thesis
    unfolding norm_cdf_def [abs_def] by simp
qed

lemma norm_cdf_strict_mono:
  assumes "a < b"
  shows "norm_cdf a < norm_cdf b"
proof -
  have "\<exists>y. (norm_cdf has_field_derivative y) (at x) \<and> 0 < y" for x
  proof -
    have "0 < exp (- (x * x) / 2) / sqrt (2 * pi)"
      by simp
    then show ?thesis
      using norm_cdf_deriv by blast
  qed
  then show ?thesis
    using assms DERIV_pos_imp_increasing [of a b norm_cdf] by blast
qed

lemma norm_cdf_mono: "a \<le> b \<Longrightarrow> norm_cdf a \<le> norm_cdf b"
  using norm_cdf_strict_mono [of a b] by (cases "a = b") auto

lemma gauss_area_minus: "gauss_area (- x) = - gauss_area x"
  by (simp add: gauss_area_def)

lemma norm_cdf_minus: "norm_cdf (- x) = 1 - norm_cdf x"
  by (simp add: norm_cdf_def gauss_area_minus)

lemma norm_cdf_zero: "norm_cdf 0 = 1 / 2"
  by (simp add: norm_cdf_def gauss_area_def)

text \<open>
  The derivative and the value at 0 determine the function: any \<open>F\<close> whose derivative
  is the standard normal density and whose value at 0 is 1/2 is \<open>norm_cdf\<close>.
\<close>

lemma norm_cdf_unique:
  assumes der: "\<And>x. (F has_field_derivative exp (- (x * x) / 2) / sqrt (2 * pi)) (at x)"
    and zero: "F 0 = 1 / 2"
  shows "F x = norm_cdf x"
proof -
  have "((\<lambda>x. F x - norm_cdf x) has_field_derivative 0) (at x)" for x
    using DERIV_diff [OF der norm_cdf_deriv] by simp
  then have "F x - norm_cdf x = F 0 - norm_cdf 0"
    using DERIV_isconst_all [of "\<lambda>x. F x - norm_cdf x" x 0] by blast
  then show ?thesis
    using zero by (simp add: norm_cdf_zero)
qed

subsection \<open>The distribution function stays between 0 and 1\<close>

text \<open>
  The area under \<open>exp (- t\<^sup>2 / 2)\<close> between 0 and \<open>x\<close> is at most \<open>sqrt (pi / 2)\<close>. For
  every \<open>k\<close> the integrand is at most \<open>(1 / (1 + t\<^sup>2 / (2 * (k + 1)))) ^ (k + 1)\<close>, whose
  area is \<open>sqrt (2 * (k + 1))\<close> times an area under \<open>cos ^ (2 * k)\<close>; the areas under the
  powers of the cosine up to \<open>pi / 2\<close> obey Wallis' recurrence, which bounds them by
  \<open>sqrt (pi / (2 * m))\<close>; the bounds tend to \<open>sqrt (pi / 2)\<close>.
\<close>

lemma cos_int_step_algebra:
  fixes s c p k :: real
  assumes "s * s = 1 - c * c"
  shows "(k * (- s * p)) * s + c * (c * p) = (k + 1) * (c * c * p) - k * p"
proof -
  have "(k * (- s * p)) * s + c * (c * p) = c * c * p - k * p * (s * s)"
    by (simp add: algebra_simps)
  also have "\<dots> = c * c * p - k * p * (1 - c * c)"
    by (simp only: assms)
  also have "\<dots> = (k + 1) * (c * c * p) - k * p"
    by (simp add: algebra_simps)
  finally show ?thesis .
qed

lemma cos_int_deriv: "(cos_int m has_field_derivative cos t ^ m) (at t)"
proof (induction m t rule: cos_int.induct)
  case (1 t)
  have "cos_int 0 = (\<lambda>t. t)"
    by (rule ext) simp
  then show ?case
    by simp
next
  case (2 t)
  have "cos_int (Suc 0) = sin"
    by (rule ext) simp
  then show ?case
    by (auto intro!: derivative_eq_intros)
next
  case (3 m t)
  have eq: "cos_int (Suc (Suc m)) =
      (\<lambda>t. cos t ^ Suc m * sin t / real (m + 2) + real (m + 1) / real (m + 2) * cos_int m t)"
    by (rule ext) simp
  have "((\<lambda>t. cos t ^ Suc m * sin t / real (m + 2) + real (m + 1) / real (m + 2) * cos_int m t)
          has_field_derivative
          ((real (Suc m) * (- sin t * cos t ^ (Suc m - Suc 0))) * sin t + cos t * cos t ^ Suc m) / real (m + 2)
            + real (m + 1) / real (m + 2) * cos t ^ m) (at t)"
    by (intro DERIV_add DERIV_cdivide DERIV_mult DERIV_power DERIV_cmult "3.IH" DERIV_cos DERIV_sin)
  moreover have "((real (Suc m) * (- sin t * cos t ^ (Suc m - Suc 0))) * sin t + cos t * cos t ^ Suc m) / real (m + 2)
            + real (m + 1) / real (m + 2) * cos t ^ m = cos t ^ Suc (Suc m)"
  proof -
    have s: "sin t * sin t = 1 - cos t * cos t"
      using sin_squared_eq [of t] by (simp only: power2_eq_square)
    have num: "(real (Suc m) * (- sin t * cos t ^ m)) * sin t + cos t * (cos t * cos t ^ m)
            = (real (Suc m) + 1) * (cos t * cos t * cos t ^ m) - real (Suc m) * cos t ^ m"
      using s by (rule cos_int_step_algebra)
    have d: "real (m + 2) \<noteq> 0"
      by simp
    have "((real (Suc m) + 1) * (cos t * cos t * cos t ^ m) - real (Suc m) * cos t ^ m) / real (m + 2)
            + real (m + 1) / real (m + 2) * cos t ^ m
          = (real (Suc m) + 1) * (cos t * cos t * cos t ^ m) / real (m + 2)"
      by (simp add: diff_divide_distrib)
    also have "\<dots> = cos t * cos t * cos t ^ m"
      by simp
    finally show ?thesis
      using num by (simp add: mult.assoc)
  qed
  ultimately show ?case
    unfolding eq by simp
qed

lemma cos_int_zero: "cos_int m 0 = 0"
  by (induction m "0::real" rule: cos_int.induct) simp_all

lemma wallis_0: "wallis 0 = pi / 2"
  by (simp add: wallis_def)

lemma wallis_1: "wallis (Suc 0) = 1"
  by (simp add: wallis_def)

lemma wallis_step: "wallis (Suc (Suc m)) = real (m + 1) / real (m + 2) * wallis m"
  by (simp add: wallis_def)

lemma wallis_pos: "0 < wallis m"
proof (induction m rule: induct_nat_012)
  case 0
  then show ?case by (simp add: wallis_0)
next
  case 1
  then show ?case by (simp add: wallis_1)
next
  case (ge2 m)
  have "0 < real (m + 1) / real (m + 2) * wallis m"
    using ge2(1) by (intro mult_pos_pos divide_pos_pos) simp_all
  then show ?case
    by (simp only: wallis_step)
qed

lemma wallis_product: "real (m + 1) * wallis m * wallis (Suc m) = pi / 2"
proof (induction m)
  case 0
  then show ?case
    by (simp add: wallis_0 wallis_1)
next
  case (Suc m)
  have nz: "real (m + 2) \<noteq> 0"
    by simp
  have "real (Suc m + 1) * wallis (Suc m) * wallis (Suc (Suc m))
          = real (m + 2) * wallis (Suc m) * (real (m + 1) / real (m + 2) * wallis m)"
    by (simp only: wallis_step) simp
  also have "\<dots> = (real (m + 2) / real (m + 2)) * (real (m + 1) * wallis m * wallis (Suc m))"
    by (simp only: times_divide_eq_left times_divide_eq_right mult_ac)
  also have "\<dots> = real (m + 1) * wallis m * wallis (Suc m)"
    using nz by simp
  finally show ?case
    using Suc by (simp only:)
qed

lemma wallis_decreasing: "wallis (Suc m) \<le> wallis m"
proof -
  let ?f = "\<lambda>t. cos_int m t - cos_int (Suc m) t"
  have der: "\<exists>y. (?f has_field_derivative y) (at t) \<and> 0 \<le> y" if "0 \<le> t" and "t \<le> pi / 2" for t
  proof -
    have c0: "0 \<le> cos t"
      using that by (intro cos_ge_zero) simp_all
    have d: "(?f has_field_derivative cos t ^ m - cos t ^ Suc m) (at t)"
      by (intro DERIV_diff cos_int_deriv)
    have "cos t ^ Suc m \<le> cos t ^ m"
      using c0 by (intro power_decreasing) simp_all
    then have "0 \<le> cos t ^ m - cos t ^ Suc m"
      by simp
    with d show ?thesis
      by blast
  qed
  have "(0::real) \<le> pi / 2"
    by simp
  then have "?f 0 \<le> ?f (pi / 2)"
    using der by (rule DERIV_nonneg_imp_nondecreasing)
  then show ?thesis
    by (simp add: wallis_def cos_int_zero)
qed

lemma wallis_square_bound: "(wallis (Suc m))\<^sup>2 \<le> pi / (2 * real (m + 1))"
proof -
  have "wallis (Suc m) * wallis (Suc m) \<le> wallis m * wallis (Suc m)"
    using wallis_decreasing [of m] wallis_pos [of "Suc m"]
    by (intro mult_right_mono) simp_all
  also have "\<dots> = (real (m + 1) * wallis m * wallis (Suc m)) / real (m + 1)"
    by simp
  also have "\<dots> = pi / (2 * real (m + 1))"
    by (simp only: wallis_product) simp
  finally show ?thesis
    by (simp only: power2_eq_square)
qed

lemma cos_int_mono_even:
  assumes "a \<le> b"
  shows "cos_int (2 * k) a \<le> cos_int (2 * k) b"
proof -
  have "\<exists>y. (cos_int (2 * k) has_field_derivative y) (at t) \<and> 0 \<le> y" for t
  proof -
    have "0 \<le> (cos t ^ 2) ^ k"
      by simp
    then have "0 \<le> cos t ^ (2 * k)"
      by (simp only: power_mult)
    then show ?thesis
      using cos_int_deriv by blast
  qed
  with assms show ?thesis
    by (rule DERIV_nonneg_imp_nondecreasing)
qed

lemma exp_le_rational_power:
  fixes t :: real
  shows "exp (- (t * t) / 2) \<le> (1 / (1 + (t / sqrt (2 * real (Suc k)))\<^sup>2)) ^ Suc k"
proof -
  define u where "u = (t / sqrt (2 * real (Suc k)))\<^sup>2"
  have u: "u = t * t / (2 * real (Suc k))"
    by (simp add: u_def power_divide power2_eq_square)
  have u0: "0 \<le> u"
    by (simp add: u_def)
  have "(1 + u) ^ Suc k \<le> exp u ^ Suc k"
    using u0 by (intro power_mono) simp_all
  also have "\<dots> = exp (real (Suc k) * u)"
    by (simp only: exp_of_nat_mult)
  also have "real (Suc k) * u = t * t / 2"
  proof -
    have h: "n * (t * t / (2 * n)) = t * t / 2" if "n \<noteq> 0" for n :: real
      using that by simp
    have nz: "real (Suc k) \<noteq> 0"
      by simp
    show ?thesis
      unfolding u by (rule h [OF nz])
  qed
  finally have le: "(1 + u) ^ Suc k \<le> exp (t * t / 2)" .
  have pos: "0 < (1 + u) ^ Suc k"
    using u0 by (intro zero_less_power) simp
  have "exp (- (t * t) / 2) = 1 / exp (t * t / 2)"
    using exp_minus' [of "t * t / 2"] by simp
  also have "\<dots> \<le> 1 / (1 + u) ^ Suc k"
    using le pos by (intro divide_left_mono mult_pos_pos) simp_all
  also have "\<dots> = (1 / (1 + u)) ^ Suc k"
    by (simp only: power_one_over)
  finally show ?thesis
    by (simp only: u_def)
qed

lemma tan_sub_deriv:
  fixes s :: real
  assumes "0 < s"
  shows "((\<lambda>x. s * cos_int (2 * k) (arctan (x / s))) has_field_derivative
           (1 / (1 + (x / s)\<^sup>2)) ^ Suc k) (at x)"
proof -
  have inner: "((\<lambda>x. arctan (x / s)) has_field_derivative inverse (1 + (x / s)\<^sup>2) * (1 / s)) (at x)"
    by (rule DERIV_chain2 [OF DERIV_arctan]) (rule DERIV_cdivide [OF DERIV_ident])
  have outer: "((\<lambda>x. cos_int (2 * k) (arctan (x / s))) has_field_derivative
                  cos (arctan (x / s)) ^ (2 * k) * (inverse (1 + (x / s)\<^sup>2) * (1 / s))) (at x)"
    by (rule DERIV_chain2 [OF cos_int_deriv inner])
  have all: "((\<lambda>x. s * cos_int (2 * k) (arctan (x / s))) has_field_derivative
                  s * (cos (arctan (x / s)) ^ (2 * k) * (inverse (1 + (x / s)\<^sup>2) * (1 / s)))) (at x)"
    by (rule DERIV_cmult [OF outer])
  define w where "w = 1 + (x / s)\<^sup>2"
  have w: "0 < w"
    by (simp add: w_def add_pos_nonneg)
  have "cos (arctan (x / s)) ^ 2 = 1 / w"
    by (simp add: cos_arctan w_def power_divide)
  then have "cos (arctan (x / s)) ^ (2 * k) = (1 / w) ^ k"
    by (simp only: power_mult)
  then have "s * (cos (arctan (x / s)) ^ (2 * k) * (inverse (1 + (x / s)\<^sup>2) * (1 / s)))
               = s * ((1 / w) ^ k * (inverse w * (1 / s)))"
    by (simp only: w_def)
  also have "\<dots> = (1 / w) ^ Suc k"
    using assms by (simp add: field_simps)
  finally show ?thesis
    using all by (simp only: w_def)
qed

lemma gauss_area_zero: "gauss_area 0 = 0"
  by (simp add: gauss_area_def)

lemma gauss_area_nonneg:
  assumes "0 \<le> x"
  shows "0 \<le> gauss_area x"
proof -
  have "\<exists>y. (gauss_area has_field_derivative y) (at t) \<and> 0 \<le> y" for t
  proof -
    have "0 \<le> exp (- (t * t) / 2)"
      by simp
    then show ?thesis
      using gauss_area_deriv by blast
  qed
  with assms have "gauss_area 0 \<le> gauss_area x"
    by (rule DERIV_nonneg_imp_nondecreasing)
  then show ?thesis
    by (simp only: gauss_area_zero)
qed

lemma gauss_area_le_wallis:
  assumes "0 \<le> x"
  shows "gauss_area x \<le> sqrt (2 * real (Suc k)) * wallis (2 * k)"
proof -
  define s where "s = sqrt (2 * real (Suc k))"
  have s: "0 < s"
    by (simp add: s_def)
  let ?h = "\<lambda>x. s * cos_int (2 * k) (arctan (x / s))"
  let ?f = "\<lambda>x. gauss_area x - ?h x"
  have "\<exists>y. (?f has_field_derivative y) (at t) \<and> y \<le> 0" for t
  proof -
    have d: "(?f has_field_derivative
               exp (- (t * t) / 2) - (1 / (1 + (t / s)\<^sup>2)) ^ Suc k) (at t)"
      by (intro DERIV_diff gauss_area_deriv tan_sub_deriv s)
    have "exp (- (t * t) / 2) \<le> (1 / (1 + (t / s)\<^sup>2)) ^ Suc k"
      unfolding s_def by (rule exp_le_rational_power)
    then have "exp (- (t * t) / 2) - (1 / (1 + (t / s)\<^sup>2)) ^ Suc k \<le> 0"
      by simp
    with d show ?thesis
      by blast
  qed
  with assms have "?f x \<le> ?f 0"
    by (rule DERIV_nonpos_imp_nonincreasing)
  then have "gauss_area x \<le> ?h x"
    by (simp add: gauss_area_zero cos_int_zero)
  also have "?h x \<le> s * cos_int (2 * k) (pi / 2)"
  proof -
    have "arctan (x / s) \<le> pi / 2"
      using arctan_ubound [of "x / s"] by simp
    then have "cos_int (2 * k) (arctan (x / s)) \<le> cos_int (2 * k) (pi / 2)"
      by (rule cos_int_mono_even)
    then show ?thesis
      using s by (intro mult_left_mono) simp_all
  qed
  finally show ?thesis
    by (simp only: s_def wallis_def)
qed

lemma gauss_area_square_le_seq:
  assumes "0 \<le> x"
  shows "(gauss_area x)\<^sup>2 \<le> pi / 2 * (1 + inverse (real (Suc j)))"
proof -
  have "gauss_area x \<le> sqrt (2 * real (Suc (Suc j))) * wallis (2 * Suc j)"
    using assms by (rule gauss_area_le_wallis)
  then have "(gauss_area x)\<^sup>2 \<le> (sqrt (2 * real (Suc (Suc j))) * wallis (2 * Suc j))\<^sup>2"
    using gauss_area_nonneg [OF assms] by (intro power_mono) simp_all
  also have "\<dots> = (2 * real (Suc (Suc j))) * (wallis (Suc (Suc (2 * j))))\<^sup>2"
    by (simp add: power_mult_distrib)
  also have "\<dots> \<le> (2 * real (Suc (Suc j))) * (pi / (2 * real (Suc (2 * j) + 1)))"
    by (intro mult_left_mono wallis_square_bound) simp
  also have "\<dots> = pi / 2 * (1 + inverse (real (Suc j)))"
  proof -
    have "2 * (a + 1) * (pi / (2 * (2 * a))) = pi / 2 * (1 + inverse a)" if "0 < a" for a :: real
      using that by (simp add: field_simps)
    from this [of "real (Suc j)"] show ?thesis
      by (simp add: algebra_simps)
  qed
  finally show ?thesis .
qed

lemma gauss_area_square_le:
  assumes "0 \<le> x"
  shows "(gauss_area x)\<^sup>2 \<le> pi / 2"
proof -
  have "(\<lambda>j. pi / 2 * (1 + inverse (real (Suc j)))) \<longlonglongrightarrow> pi / 2 * (1 + 0)"
    by (intro tendsto_mult tendsto_add tendsto_const LIMSEQ_inverse_real_of_nat)
  then have lim: "(\<lambda>j. pi / 2 * (1 + inverse (real (Suc j)))) \<longlonglongrightarrow> pi / 2"
    by simp
  have "\<exists>N. \<forall>j\<ge>N. (gauss_area x)\<^sup>2 \<le> pi / 2 * (1 + inverse (real (Suc j)))"
    using gauss_area_square_le_seq [OF assms] by blast
  with lim show ?thesis
    by (rule LIMSEQ_le_const)
qed

lemma gauss_area_le:
  assumes "0 \<le> x"
  shows "gauss_area x \<le> sqrt (pi / 2)"
  using gauss_area_square_le [OF assms] by (rule real_le_rsqrt)

lemma norm_cdf_le_one_nonneg:
  assumes "0 \<le> x"
  shows "1 / 2 \<le> norm_cdf x \<and> norm_cdf x \<le> 1"
proof -
  have half: "sqrt (pi / 2) / sqrt (2 * pi) = 1 / 2"
  proof -
    have "sqrt (pi / 2) / sqrt (2 * pi) = sqrt ((pi / 2) / (2 * pi))"
      by (simp only: real_sqrt_divide)
    also have "(pi / 2) / (2 * pi) = (1 / 2)\<^sup>2"
      by (simp add: power2_eq_square)
    also have "sqrt ((1 / 2)\<^sup>2) = (1 / 2 :: real)"
      by (simp only: real_sqrt_abs abs_of_pos [of "1 / 2 :: real", simplified])
    finally show ?thesis .
  qed
  have "gauss_area x / sqrt (2 * pi) \<le> sqrt (pi / 2) / sqrt (2 * pi)"
    using gauss_area_le [OF assms] by (intro divide_right_mono) simp_all
  then have "gauss_area x / sqrt (2 * pi) \<le> 1 / 2"
    by (simp only: half)
  then have "1 / 2 + gauss_area x / sqrt (2 * pi) \<le> 1"
    by linarith
  then have up: "norm_cdf x \<le> 1"
    by (simp only: norm_cdf_def)
  have "0 \<le> gauss_area x / sqrt (2 * pi)"
    using gauss_area_nonneg [OF assms] by simp
  then have "1 / 2 \<le> norm_cdf x"
    by (simp add: norm_cdf_def)
  with up show ?thesis
    by simp
qed

lemma norm_cdf_range: "0 \<le> norm_cdf x \<and> norm_cdf x \<le> 1"
proof (cases "0 \<le> x")
  case True
  then show ?thesis
    using norm_cdf_le_one_nonneg [of x] by simp
next
  case False
  then have "0 \<le> - x"
    by simp
  then have "1 / 2 \<le> norm_cdf (- x) \<and> norm_cdf (- x) \<le> 1"
    by (rule norm_cdf_le_one_nonneg)
  then show ?thesis
    by (simp add: norm_cdf_minus)
qed

subsection \<open>Enclosures of \<open>pi\<close> and of the series at the notebook's \<open>z\<close>\<close>

lemma arctan_enclosure:
  fixes x :: real
  assumes "0 \<le> x" and "x \<le> 1"
  shows "(\<Sum>k<2 * n. (- 1) ^ k * (1 / real (k * 2 + 1) * x ^ (k * 2 + 1))) \<le> arctan x
       \<and> arctan x \<le> (\<Sum>k<2 * n + 1. (- 1) ^ k * (1 / real (k * 2 + 1) * x ^ (k * 2 + 1)))"
proof -
  let ?a = "\<lambda>k. 1 / real (k * 2 + 1) * x ^ (k * 2 + 1)"
  have abs1: "\<bar>x\<bar> \<le> 1"
    using assms by simp
  have zero: "?a \<longlonglongrightarrow> 0"
    using abs1 by (rule zeroseq_arctan_series)
  have nonneg: "0 \<le> ?a k" for k
    using assms by simp
  have decr: "?a (Suc k) \<le> ?a k" for k
  proof -
    have "x ^ (Suc k * 2 + 1) \<le> x ^ (k * 2 + 1)"
      using assms by (intro power_decreasing) simp_all
    moreover have "1 / real (Suc k * 2 + 1) \<le> 1 / real (k * 2 + 1)"
      by (intro divide_left_mono) simp_all
    ultimately show ?thesis
      using assms by (intro mult_mono) simp_all
  qed
  have eq: "arctan x = (\<Sum>k. (- 1) ^ k * ?a k)"
    using abs1 by (rule arctan_series)
  show ?thesis
    unfolding eq
    using summable_Leibniz'(2) [OF zero nonneg decr, of n]
          summable_Leibniz'(4) [OF zero nonneg decr, of n]
    by simp
qed

lemma arctan5_lower: "(1973955598498807582 / 10 ^ 19 :: real) \<le> arctan (1 / 5)"
proof -
  have "(1973955598498807582 / 10 ^ 19 :: real)
          \<le> (\<Sum>k<2 * 6. (- 1) ^ k * (1 / real (k * 2 + 1) * (1 / 5) ^ (k * 2 + 1)))"
    by (simp add: lessThan_Suc eval_nat_numeral)
  then show ?thesis
    using arctan_enclosure [of "1 / 5" 6] by simp
qed

lemma arctan5_upper: "arctan (1 / 5) \<le> (1973955598498807584 / 10 ^ 19 :: real)"
proof -
  have "(\<Sum>k<2 * 6 + 1. (- 1) ^ k * (1 / real (k * 2 + 1) * (1 / 5) ^ (k * 2 + 1)))
          \<le> (1973955598498807584 / 10 ^ 19 :: real)"
    by (simp add: lessThan_Suc eval_nat_numeral)
  then show ?thesis
    using arctan_enclosure [of "1 / 5" 6] by simp
qed

lemma arctan239_lower: "(41840760020747238 / 10 ^ 19 :: real) \<le> arctan (1 / 239)"
proof -
  have "(41840760020747238 / 10 ^ 19 :: real)
          \<le> (\<Sum>k<2 * 2. (- 1) ^ k * (1 / real (k * 2 + 1) * (1 / 239) ^ (k * 2 + 1)))"
    by (simp add: lessThan_Suc eval_nat_numeral)
  then show ?thesis
    using arctan_enclosure [of "1 / 239" 2] by simp
qed

lemma arctan239_upper: "arctan (1 / 239) \<le> (41840760020747239 / 10 ^ 19 :: real)"
proof -
  have "(\<Sum>k<2 * 2 + 1. (- 1) ^ k * (1 / real (k * 2 + 1) * (1 / 239) ^ (k * 2 + 1)))
          \<le> (41840760020747239 / 10 ^ 19 :: real)"
    by (simp add: lessThan_Suc eval_nat_numeral)
  then show ?thesis
    using arctan_enclosure [of "1 / 239" 2] by simp
qed

lemma pi_enclosure:
  "(3141592653589793235 / 10 ^ 18 :: real) \<le> pi \<and> pi \<le> 3141592653589793240 / 10 ^ 18"
proof -
  have pi_eq: "pi = 16 * arctan (1 / 5) - 4 * arctan (1 / 239)"
    using machin by simp
  have "(3141592653589793235 / 10 ^ 18 :: real)
          \<le> 16 * (1973955598498807582 / 10 ^ 19) - 4 * (41840760020747239 / 10 ^ 19)"
    by simp
  also have "\<dots> \<le> pi"
    unfolding pi_eq using arctan5_lower arctan239_upper
    by (intro diff_mono mult_left_mono) simp_all
  finally have l: "(3141592653589793235 / 10 ^ 18 :: real) \<le> pi" .
  have "pi \<le> 16 * (1973955598498807584 / 10 ^ 19) - 4 * (41840760020747238 / 10 ^ 19)"
    unfolding pi_eq using arctan5_upper arctan239_lower
    by (intro diff_mono mult_left_mono) simp_all
  also have "\<dots> \<le> (3141592653589793240 / 10 ^ 18 :: real)"
    by simp
  finally have u: "pi \<le> 3141592653589793240 / 10 ^ 18" .
  show ?thesis
    using l u by simp
qed

lemma gauss_series_enclosure:
  fixes y :: real
  assumes "0 \<le> y" and "y \<le> 2"
  shows "(\<Sum>k<2 * n. gauss_coeff k * y ^ k) \<le> (\<Sum>k. gauss_coeff k * y ^ k)
       \<and> (\<Sum>k. gauss_coeff k * y ^ k) \<le> (\<Sum>k<2 * n + 1. gauss_coeff k * y ^ k)"
proof -
  let ?a = "\<lambda>k. (y / 2) ^ k / (fact k * real (2 * k + 1))"
  have tm: "gauss_coeff k * y ^ k = (- 1) ^ k * ?a k" for k
  proof -
    have "(- 1 / 2 :: real) ^ k * y ^ k = (- 1) ^ k * (y / 2) ^ k"
      unfolding power_mult_distrib [symmetric] by simp
    then show ?thesis
      by (simp add: gauss_coeff_def)
  qed
  have "(\<lambda>k. gauss_coeff k * y ^ k) \<longlonglongrightarrow> 0"
    using gauss_coeff_summable by (rule summable_LIMSEQ_zero)
  then have "(\<lambda>k. \<bar>gauss_coeff k * y ^ k\<bar>) \<longlonglongrightarrow> 0"
    by (rule tendsto_rabs_zero)
  moreover have "\<bar>gauss_coeff k * y ^ k\<bar> = ?a k" for k
    using assms by (simp add: tm abs_mult power_abs)
  ultimately have zero: "?a \<longlonglongrightarrow> 0"
    by simp
  have nonneg: "0 \<le> ?a k" for k
    using assms by simp
  have decr: "?a (Suc k) \<le> ?a k" for k
  proof (rule frac_le)
    show "(y / 2) ^ Suc k \<le> (y / 2) ^ k"
      using assms by (intro power_decreasing) simp_all
    show "fact k * real (2 * k + 1) \<le> fact (Suc k) * real (2 * Suc k + 1)"
      by (intro mult_mono) (simp_all add: fact_mono)
  qed (use assms in simp_all)
  show ?thesis
    unfolding tm
    using summable_Leibniz'(2) [OF zero nonneg decr, of n]
          summable_Leibniz'(4) [OF zero nonneg decr, of n]
    by simp
qed

lemma gauss_series_value:
  "(8078001768574093135 / 10 ^ 19 :: real) \<le> (\<Sum>k. gauss_coeff k * (45 / 32) ^ k)
   \<and> (\<Sum>k. gauss_coeff k * (45 / 32) ^ k) \<le> (8078001768574093187 / 10 ^ 19 :: real)"
proof -
  have "(8078001768574093135 / 10 ^ 19 :: real) \<le> (\<Sum>k<2 * 8. gauss_coeff k * (45 / 32) ^ k)"
    by (simp add: lessThan_Suc eval_nat_numeral gauss_coeff_def)
  moreover have "(\<Sum>k<2 * 8 + 1. gauss_coeff k * (45 / 32) ^ k)
                   \<le> (8078001768574093187 / 10 ^ 19 :: real)"
    by (simp add: lessThan_Suc eval_nat_numeral gauss_coeff_def)
  ultimately show ?thesis
    using gauss_series_enclosure [of "45 / 32" 8] by simp
qed

lemma density_scale_enclosure:
  "(4730873478787800089 / 10 ^ 19 :: real) \<le> sqrt (45 / (64 * pi))
   \<and> sqrt (45 / (64 * pi)) \<le> 4730873478787800094 / 10 ^ 19"
proof -
  have lo: "(3141592653589793235 / 10 ^ 18 :: real) \<le> pi"
    and hi: "pi \<le> 3141592653589793240 / 10 ^ 18"
    using pi_enclosure by simp_all
  have "(4730873478787800089 / 10 ^ 19 :: real)\<^sup>2 \<le> 45 / (64 * (3141592653589793240 / 10 ^ 18))"
    by (simp add: power2_eq_square)
  also have "\<dots> \<le> 45 / (64 * pi)"
    using hi by (intro divide_left_mono mult_left_mono) simp_all
  finally have l: "(4730873478787800089 / 10 ^ 19 :: real) \<le> sqrt (45 / (64 * pi))"
    by (rule real_le_rsqrt)
  have "45 / (64 * pi) \<le> 45 / (64 * (3141592653589793235 / 10 ^ 18))"
    using lo by (intro divide_left_mono mult_left_mono mult_pos_pos) simp_all
  also have "\<dots> \<le> (4730873478787800094 / 10 ^ 19 :: real)\<^sup>2"
    by (simp add: power2_eq_square)
  finally have u: "sqrt (45 / (64 * pi)) \<le> 4730873478787800094 / 10 ^ 19"
    by (intro real_le_lsqrt) simp_all
  show ?thesis
    using l u by simp
qed

lemma norm_cdf_at_z:
  "norm_cdf (3 / (16 / sqrt 40))
     = 1 / 2 + (\<Sum>k. gauss_coeff k * (45 / 32) ^ k) * sqrt (45 / (64 * pi))"
proof -
  let ?z = "3 / (16 / sqrt 40) :: real"
  have sq: "?z * ?z = 45 / 32"
    by simp
  have "?z = sqrt (45 / 32)"
    by (rule real_sqrt_unique [symmetric]) (simp_all add: power2_eq_square)
  then have "?z / sqrt (2 * pi) = sqrt (45 / 32 / (2 * pi))"
    by (simp only: real_sqrt_divide)
  then have "?z / sqrt (2 * pi) = sqrt (45 / (64 * pi))"
    by simp
  then have scale: "?z * S / sqrt (2 * pi) = S * sqrt (45 / (64 * pi))" for S :: real
    by (simp only: times_divide_eq_right [symmetric] mult.commute [of ?z S])
  have "norm_cdf ?z = 1 / 2 + ?z * (\<Sum>k. gauss_coeff k * (45 / 32) ^ k) / sqrt (2 * pi)"
    unfolding norm_cdf_def gauss_area_def sq ..
  then show ?thesis
    by (simp only: scale)
qed

lemma norm_cdf_z_enclosure:
  "\<bar>norm_cdf (3 / (16 / sqrt 40)) - 8821600432854813 / 10 ^ 16\<bar> < 1 / 10 ^ 16"
proof -
  define S where "S = (\<Sum>k. gauss_coeff k * (45 / 32 :: real) ^ k)"
  define c where "c = sqrt (45 / (64 * pi))"
  have S: "8078001768574093135 / 10 ^ 19 \<le> S" "S \<le> 8078001768574093187 / 10 ^ 19"
    using gauss_series_value by (simp_all add: S_def)
  have c: "4730873478787800089 / 10 ^ 19 \<le> c" "c \<le> 4730873478787800094 / 10 ^ 19"
    using density_scale_enclosure by (simp_all add: c_def)
  have "(8078001768574093135 / 10 ^ 19) * (4730873478787800089 / 10 ^ 19) \<le> S * c"
    using S c by (intro mult_mono) simp_all
  moreover have "S * c \<le> (8078001768574093187 / 10 ^ 19) * (4730873478787800094 / 10 ^ 19)"
    using S c by (intro mult_mono) simp_all
  ultimately have "\<bar>1 / 2 + S * c - 8821600432854813 / 10 ^ 16\<bar> < 1 / 10 ^ 16"
    by (simp add: abs_less_iff)
  then show ?thesis
    by (simp only: norm_cdf_at_z S_def c_def)
qed

lemma norm_cdf_lipschitz: "\<bar>norm_cdf a - norm_cdf b\<bar> \<le> \<bar>a - b\<bar> / 2"
proof -
  have step: "\<bar>norm_cdf v - norm_cdf u\<bar> \<le> \<bar>v - u\<bar> / 2" if "u < v" for u v :: real
  proof -
    have "\<exists>w>u. w < v \<and>
            norm_cdf v - norm_cdf u = (v - u) * (exp (- (w * w) / 2) / sqrt (2 * pi))"
      using that by (rule MVT2) (rule norm_cdf_deriv)
    then obtain w where w: "norm_cdf v - norm_cdf u = (v - u) * (exp (- (w * w) / 2) / sqrt (2 * pi))"
      by blast
    have "(2::real) = sqrt 4"
      by simp
    also have "\<dots> \<le> sqrt (2 * pi)"
      using pi_ge_two by (intro real_sqrt_le_mono) simp
    finally have den: "2 \<le> sqrt (2 * pi)" .
    have "exp (- (w * w) / 2) \<le> (1::real)"
      by simp
    then have "exp (- (w * w) / 2) / sqrt (2 * pi) \<le> 1 / 2"
      using den by (intro frac_le) simp_all
    moreover have "0 \<le> exp (- (w * w) / 2) / sqrt (2 * pi)"
      by simp
    ultimately have "\<bar>(v - u) * (exp (- (w * w) / 2) / sqrt (2 * pi))\<bar> \<le> \<bar>v - u\<bar> * (1 / 2)"
      unfolding abs_mult by (intro mult_mono) simp_all
    then show ?thesis
      by (simp add: w)
  qed
  consider "a < b" | "a = b" | "b < a"
    by linarith
  then show ?thesis
  proof cases
    case 1
    then show ?thesis
      using step [of a b] by (simp add: abs_minus_commute)
  next
    case 2
    then show ?thesis
      by simp
  next
    case 3
    then show ?thesis
      using step [of b a] by simp
  qed
qed

lemma norm_cdf_near:
  assumes "\<bar>x - c\<bar> \<le> e1" and "\<bar>y - c\<bar> < e2" and "\<bar>norm_cdf y - v\<bar> < e3"
  shows "\<bar>norm_cdf x - v\<bar> < (e1 + e2) / 2 + e3"
proof -
  have "\<bar>x - y\<bar> < e1 + e2"
    using assms(1,2) by linarith
  then have "\<bar>x - y\<bar> / 2 < (e1 + e2) / 2"
    by simp
  with norm_cdf_lipschitz [of x y] have "\<bar>norm_cdf x - norm_cdf y\<bar> < (e1 + e2) / 2"
    by (rule le_less_trans)
  then show ?thesis
    using assms(3) by linarith
qed

lemma pval_near:
  assumes "\<bar>cdf x - v\<bar> < e" and "\<bar>1 - v - p\<bar> \<le> d"
  shows "\<bar>pval cdf x - p\<bar> < e + d"
  using assms unfolding pval_def by linarith

lemma norm_cdf_near_z:
  assumes "\<bar>zv - 11858541225631423 / 10 ^ 16\<bar> \<le> 1 / 10 ^ 16"
  shows "\<bar>norm_cdf zv - 8821600432854813 / 10 ^ 16\<bar> < 2 / 10 ^ 16"
proof -
  have "\<bar>norm_cdf zv - 8821600432854813 / 10 ^ 16\<bar> < (1 / 10 ^ 16 + 1 / 10 ^ 16) / 2 + 1 / 10 ^ 16"
    using assms z_example_value norm_cdf_z_enclosure by (rule norm_cdf_near)
  moreover have "(1 / 10 ^ 16 + 1 / 10 ^ 16) / 2 + 1 / 10 ^ 16 = (2 / 10 ^ 16 :: real)"
    by simp
  ultimately show ?thesis
    by (simp only:)
qed

section \<open>The p-value\<close>

text \<open>
  C2. The p-value cell returns \<open>1 - cdf z\<close> for whatever distribution function it is
  given. With the standard normal \<open>\<Phi>\<close> and any \<open>z\<close> within \<open>1 / 10 ^ 16\<close> of
  1.1858541225631423, \<open>\<Phi> z\<close> is within \<open>1 / 10 ^ 15\<close> of 0.8821600432854813 and the
  p-value within \<open>1 / 10 ^ 15\<close> of 0.11783995671451875.
\<close>

theorem pval_upper_value:
  "pval cdf zv = 1 - cdf zv
   \<and> (\<bar>zv - 11858541225631423 / 10 ^ 16\<bar> \<le> 1 / 10 ^ 16 \<longrightarrow>
        \<bar>norm_cdf zv - 8821600432854813 / 10 ^ 16\<bar> < 1 / 10 ^ 15
        \<and> \<bar>pval norm_cdf zv - 11783995671451875 / 10 ^ 17\<bar> < 1 / 10 ^ 15)"
proof -
  have near: "\<bar>norm_cdf zv - 8821600432854813 / 10 ^ 16\<bar> < 1 / 10 ^ 15
        \<and> \<bar>pval norm_cdf zv - 11783995671451875 / 10 ^ 17\<bar> < 1 / 10 ^ 15"
    if h: "\<bar>zv - 11858541225631423 / 10 ^ 16\<bar> \<le> 1 / 10 ^ 16"
  proof -
    have c: "\<bar>norm_cdf zv - 8821600432854813 / 10 ^ 16\<bar> < 2 / 10 ^ 16"
      using h by (rule norm_cdf_near_z)
    have "(2 / 10 ^ 16 :: real) \<le> 1 / 10 ^ 15"
      by simp
    then have c': "\<bar>norm_cdf zv - 8821600432854813 / 10 ^ 16\<bar> < 1 / 10 ^ 15"
      using c by (rule less_le_trans [rotated])
    have "\<bar>1 - 8821600432854813 / 10 ^ 16 - 11783995671451875 / 10 ^ 17\<bar> \<le> (1 / 10 ^ 16 :: real)"
      by simp
    then have "\<bar>pval norm_cdf zv - 11783995671451875 / 10 ^ 17\<bar> < 2 / 10 ^ 16 + 1 / 10 ^ 16"
      using c by (intro pval_near)
    moreover have "(2 / 10 ^ 16 + 1 / 10 ^ 16 :: real) \<le> 1 / 10 ^ 15"
      by simp
    ultimately have "\<bar>pval norm_cdf zv - 11783995671451875 / 10 ^ 17\<bar> < 1 / 10 ^ 15"
      by (rule less_le_trans)
    then show ?thesis
      using c' by (rule conjI [rotated])
  qed
  have "pval cdf zv = 1 - cdf zv"
    by (simp add: pval_def)
  then show ?thesis
    using near by blast
qed

theorem pval_upper_value_witness:
  "\<bar>3 / (16 / sqrt 40) - 11858541225631423 / 10 ^ 16\<bar> \<le> (1 / 10 ^ 16 :: real)
   \<and> \<bar>norm_cdf (3 / (16 / sqrt 40)) - 8821600432854813 / 10 ^ 16\<bar> < 1 / 10 ^ 15
   \<and> \<bar>pval norm_cdf (3 / (16 / sqrt 40)) - 11783995671451875 / 10 ^ 17\<bar> < 1 / 10 ^ 15"
proof -
  have h: "\<bar>3 / (16 / sqrt 40) - 11858541225631423 / 10 ^ 16\<bar> \<le> (1 / 10 ^ 16 :: real)"
    using z_example_value by (rule less_imp_le)
  show ?thesis
    using h pval_upper_value [of norm_cdf "3 / (16 / sqrt 40)"] by blast
qed

text \<open>
  C10. The standard normal \<open>\<Phi>\<close> is nondecreasing, so the upper-tail p-value
  \<open>1 - \<Phi> z\<close> does not increase when \<open>z\<close> grows.
\<close>

theorem upper_tail_antitone:
  assumes "z1 \<le> z2"
  shows "norm_cdf z1 \<le> norm_cdf z2 \<and> pval norm_cdf z2 \<le> pval norm_cdf z1"
  using norm_cdf_mono [OF assms] by (simp add: pval_def)

theorem upper_tail_antitone_witness:
  "(0::real) \<le> 1 \<and> norm_cdf 0 \<le> norm_cdf 1 \<and> pval norm_cdf 1 \<le> pval norm_cdf 0"
  using upper_tail_antitone [of 0 1] by simp

text \<open>
  C7, as the specification has it: the lower-tail value \<open>\<Phi> z\<close> and the upper-tail
  value at \<open>- z\<close> add up to about 1. At the notebook's own \<open>z\<close> the two are equal,
  about 0.88 each, and their sum is further than 3/4 from 1.
\<close>

theorem lower_plus_reflected_upper_not_one:
  "3 / 4 < \<bar>norm_cdf (3 / (16 / sqrt 40)) + pval norm_cdf (- (3 / (16 / sqrt 40))) - 1\<bar>"
proof -
  have "norm_cdf (3 / (16 / sqrt 40)) + pval norm_cdf (- (3 / (16 / sqrt 40))) - 1
          = 2 * norm_cdf (3 / (16 / sqrt 40)) - 1"
    by (simp add: pval_def norm_cdf_minus)
  moreover have "7 / 8 < norm_cdf (3 / (16 / sqrt 40))"
  proof -
    have "(7 / 8 :: real) < 8821600432854813 / 10 ^ 16 - 1 / 10 ^ 16"
      by simp
    also have "\<dots> < norm_cdf (3 / (16 / sqrt 40))"
      using norm_cdf_z_enclosure by linarith
    finally show ?thesis .
  qed
  ultimately show ?thesis
    by linarith
qed

text \<open>
  C7, amended. By the reflection \<open>\<Phi> (- z) = 1 - \<Phi> z\<close> the lower-tail value at \<open>z\<close>
  equals the upper-tail value at \<open>- z\<close>, so their sum is \<open>2 * \<Phi> z\<close>. The two values
  that add up to 1 are the lower-tail and the upper-tail value at the same \<open>z\<close>.
\<close>

theorem lower_upper_reflection:
  "norm_cdf zv = pval norm_cdf (- zv)
   \<and> norm_cdf zv + pval norm_cdf (- zv) = 2 * norm_cdf zv
   \<and> norm_cdf zv + pval norm_cdf zv = 1"
  by (simp add: pval_def norm_cdf_minus)

text \<open>
  Step 5 of the notebook reads the p-value against \<open>alpha = 0.05\<close> in prose only:
  the p-value of the example is larger, so the null hypothesis is not rejected.
\<close>

lemma pval_example_above_alpha: "5 / 100 < pval norm_cdf (3 / (16 / sqrt 40))"
proof -
  have "norm_cdf (3 / (16 / sqrt 40)) < 8821600432854813 / 10 ^ 16 + 1 / 10 ^ 16"
    using norm_cdf_z_enclosure by linarith
  also have "\<dots> < (95 / 100 :: real)"
    by simp
  finally show ?thesis
    by (simp add: pval_def)
qed

text \<open>
  C4. The p-value cell applies no clamp, and needs none: for every real \<open>z\<close> the
  upper-tail value \<open>1 - \<Phi> z\<close> it returns lies in [0, 1], so clamping it to [0, 1]
  changes nothing. The same holds of the value \<open>\<Phi> z\<close> of the distribution-function
  cell (the lower tail) and of twice the upper-tail value at \<open>\<bar>z\<bar>\<close> (the
  specification's two-sided formula).
\<close>

theorem p_value_in_unit_interval:
  "(0 \<le> pval norm_cdf zv \<and> pval norm_cdf zv \<le> 1)
   \<and> max 0 (min 1 (pval norm_cdf zv)) = pval norm_cdf zv
   \<and> (0 \<le> norm_cdf zv \<and> norm_cdf zv \<le> 1)
   \<and> (0 \<le> 2 * pval norm_cdf \<bar>zv\<bar> \<and> 2 * pval norm_cdf \<bar>zv\<bar> \<le> 1)"
proof -
  have r: "0 \<le> norm_cdf zv \<and> norm_cdf zv \<le> 1"
    by (rule norm_cdf_range)
  have "(0::real) \<le> \<bar>zv\<bar>"
    by simp
  then have a: "1 / 2 \<le> norm_cdf \<bar>zv\<bar> \<and> norm_cdf \<bar>zv\<bar> \<le> 1"
    by (rule norm_cdf_le_one_nonneg)
  show ?thesis
    using r a by (simp add: pval_def)
qed

text \<open>
  C8. The two-sided p-value of the specification, \<open>2 * (1 - \<Phi> \<bar>z\<bar>)\<close> clamped to
  [0, 1], is twice the upper-tail value at \<open>\<bar>z\<bar>\<close> clamped at 1, and it is
  \<open>2 * (1 - \<Phi> \<bar>z\<bar>)\<close> itself: the clamp never acts, since \<open>\<Phi>\<close> is between 1/2 and
  1 at a non-negative argument.
\<close>

theorem two_sided_twice_upper:
  "two_sided norm_cdf zv = min 1 (2 * pval norm_cdf \<bar>zv\<bar>)
   \<and> two_sided norm_cdf zv = 2 * (1 - norm_cdf \<bar>zv\<bar>)"
proof -
  have "(0::real) \<le> \<bar>zv\<bar>"
    by simp
  then have "1 / 2 \<le> norm_cdf \<bar>zv\<bar> \<and> norm_cdf \<bar>zv\<bar> \<le> 1"
    by (rule norm_cdf_le_one_nonneg)
  then show ?thesis
    by (simp add: two_sided_def pval_def)
qed

end
